theory Spec2Isabelle
  imports Complex_Main "HOL-Library.Word" "HOL-Library.Sublist"
begin

section \<open>JavaScript values\<close>

text \<open>
  A JavaScript string is a sequence of UTF-16 code units. Literals of the source that are
  plain ASCII are written with \<open>ascii\<close>; the bullet of the study tips is the code unit
  \<open>0x2022\<close>.
\<close>

type_synonym jsstring = "16 word list"

definition ascii :: "string \<Rightarrow> jsstring" where
  "ascii s = map of_char s"

text \<open>
  A number decoded from JSON is a double: a finite value (every finite double is a rational,
  and both zeros are \<open>0\<close>) or an infinity (an overflowing literal such as \<open>1e999\<close>).
  JSON has no NaN.
\<close>

datatype jsnum = Finite rat | PosInfinity | NegInfinity

text \<open>
  The values the decoded response body is made of, and \<open>undefined\<close>, which no decoded body
  contains but which reading a missing property gives. \<open>JObj\<close> lists the own properties of
  the object; a key listed twice stands for its first entry.
\<close>

datatype jsval =
    JUndefined
  | JNull
  | JBool bool
  | JNum jsnum
  | JStr jsstring
  | JArr "jsval list"
  | JObj "(jsstring \<times> jsval) list"

fun truthy :: "jsval \<Rightarrow> bool" where
  "truthy JUndefined = False"
| "truthy JNull = False"
| "truthy (JBool b) = b"
| "truthy (JNum n) = (n \<noteq> Finite 0)"
| "truthy (JStr s) = (s \<noteq> [])"
| "truthy (JArr xs) = True"
| "truthy (JObj kvs) = True"

fun nullish :: "jsval \<Rightarrow> bool" where
  "nullish JUndefined = True"
| "nullish JNull = True"
| "nullish v = False"

text \<open>
  What the asynchronous code can throw: \<open>fetch\<close> rejecting (no connection, DNS, reset),
  \<open>response.json()\<close> rejecting on a body that is not JSON, and a property read on
  \<open>null\<close> or \<open>undefined\<close>.
\<close>

datatype js_error = NetworkError | SyntaxError | TypeError

definition and_then :: "js_error + 'a \<Rightarrow> ('a \<Rightarrow> js_error + 'b) \<Rightarrow> js_error + 'b" where
  "and_then r f = (case r of Inl e \<Rightarrow> Inl e | Inr v \<Rightarrow> f v)"

text \<open>
  \<open>v.name\<close> for a property name that no built-in prototype defines and that is neither an
  index nor \<open>length\<close>; the four names read by \<open>getAIResponse\<close> are such names. Only an
  object can have it as an own property; \<open>null\<close> and \<open>undefined\<close> throw.
\<close>

fun get_named :: "jsstring \<Rightarrow> jsval \<Rightarrow> js_error + jsval" where
  "get_named k JUndefined = Inl TypeError"
| "get_named k JNull = Inl TypeError"
| "get_named k (JObj kvs) = Inr (case map_of kvs k of None \<Rightarrow> JUndefined | Some v \<Rightarrow> v)"
| "get_named k v = Inr JUndefined"

text \<open>
  \<open>v[0]\<close>: the first element of an array, the first code unit of a string (as a string of
  length one), the own property \<open>"0"\<close> of an object.
\<close>

fun get_first :: "jsval \<Rightarrow> js_error + jsval" where
  "get_first JUndefined = Inl TypeError"
| "get_first JNull = Inl TypeError"
| "get_first (JArr xs) = Inr (case xs of [] \<Rightarrow> JUndefined | x # _ \<Rightarrow> x)"
| "get_first (JStr s) = Inr (case s of [] \<Rightarrow> JUndefined | c # _ \<Rightarrow> JStr [c])"
| "get_first (JObj kvs) = Inr (case map_of kvs (ascii ''0'') of None \<Rightarrow> JUndefined | Some v \<Rightarrow> v)"
| "get_first v = Inr JUndefined"

text \<open>Optional chaining: \<open>v?.name\<close> and \<open>v?.[0]\<close> give \<open>undefined\<close> on a nullish \<open>v\<close>.\<close>

definition opt :: "(jsval \<Rightarrow> js_error + jsval) \<Rightarrow> jsval \<Rightarrow> js_error + jsval" where
  "opt rd v = (if nullish v then Inr JUndefined else rd v)"


section \<open>The Generation Client: \<open>getAIResponse\<close>\<close>

definition STUDY_TIPS :: jsstring where
  "STUDY_TIPS =
     ascii ''I'm here to help! To enable AI-powered responses, please add your Gemini API key to the .env file. In the meantime, I can provide general study tips:\<newline>\<newline>''
     @ [0x2022] @ ascii '' Create a study schedule and stick to it\<newline>''
     @ [0x2022] @ ascii '' Practice regularly with mock tests\<newline>''
     @ [0x2022] @ ascii '' Focus on understanding concepts, not just memorization\<newline>''
     @ [0x2022] @ ascii '' Take regular breaks to avoid burnout\<newline>''
     @ [0x2022] @ ascii '' Review your mistakes and learn from them\<newline>\<newline>What specific topic would you like help with?''"

definition TROUBLE :: jsstring where
  "TROUBLE = ascii ''I apologize, but I'm having trouble generating a response right now. Please try rephrasing your question.''"

definition TECHNICAL :: jsstring where
  "TECHNICAL = ascii ''I'm experiencing some technical difficulties. Please try again in a moment.''"

definition ENDPOINT :: jsstring where
  "ENDPOINT = ascii ''https://generativelanguage.googleapis.com/v1beta/models/gemini-pro:generateContent?key=''"

definition prompt :: "jsstring \<Rightarrow> jsstring" where
  "prompt userMessage =
     ascii ''You are an expert educational assistant for students preparing for JEE (Joint Entrance Examination), NEET (National Eligibility cum Entrance Test), and BTech courses. Your role is to help students understand concepts, solve doubts, and provide study guidance.\<newline>\<newline>Context: The student is using EduPath, an educational platform.\<newline>\<newline>Student's question: ''
     @ userMessage
     @ ascii ''\<newline>\<newline>Please provide a clear, concise, and helpful response. If the question is about a specific subject (Physics, Chemistry, Mathematics, Biology), provide detailed explanations with examples where appropriate.''"

text \<open>
  The argument of \<open>fetch\<close>. \<open>payload\<close> is the value handed to \<open>JSON.stringify\<close> for the
  request body.
\<close>

record request =
  url :: jsstring
  httpMethod :: jsstring
  headers :: "(jsstring \<times> jsstring) list"
  payload :: jsval

definition gemini_request :: "jsstring \<Rightarrow> jsstring \<Rightarrow> request" where
  "gemini_request apiKey userMessage =
     \<lparr> url = ENDPOINT @ apiKey,
       httpMethod = ascii ''POST'',
       headers = [(ascii ''Content-Type'', ascii ''application/json'')],
       payload =
         JObj [(ascii ''contents'',
           JArr [JObj [(ascii ''parts'',
             JArr [JObj [(ascii ''text'', JStr (prompt userMessage))]])]])] \<rparr>"

text \<open>
  What the gateway does with a request: \<open>fetch\<close> rejects, or it resolves to a response
  with an HTTP status and a body. The body is given as \<open>response.json()\<close> decodes it:
  \<open>None\<close> when it is not JSON. The status is carried to show that the code never reads it.
\<close>

datatype fetch_outcome = Rejected | Responded nat "jsval option"

type_synonym gateway = "request \<Rightarrow> fetch_outcome"

datatype effect = Fetch request | ConsoleError jsstring js_error

text \<open>\<open>await fetch(...)\<close> followed by \<open>await response.json()\<close>.\<close>

definition fetch_json :: "gateway \<Rightarrow> request \<Rightarrow> js_error + jsval" where
  "fetch_json gw req =
     (case gw req of
        Rejected \<Rightarrow> Inl NetworkError
      | Responded status None \<Rightarrow> Inl SyntaxError
      | Responded status (Some data) \<Rightarrow> Inr data)"

text \<open>
  The condition
  \<open>data.candidates && data.candidates[0]?.content?.parts?.[0]?.text\<close>:
  the value of \<open>&&\<close> is its left operand when that is falsy, its right operand otherwise.
\<close>

definition guarded_text :: "jsval \<Rightarrow> js_error + jsval" where
  "guarded_text data =
     and_then (get_named (ascii ''candidates'') data) (\<lambda>c.
       if \<not> truthy c then Inr c
       else
         and_then (get_named (ascii ''candidates'') data) (\<lambda>cs.
         and_then (get_first cs) (\<lambda>c0.
         and_then (opt (get_named (ascii ''content'')) c0) (\<lambda>ct.
         and_then (opt (get_named (ascii ''parts'')) ct) (\<lambda>ps.
         and_then (opt get_first ps) (\<lambda>p0.
         opt (get_named (ascii ''text'')) p0))))))"

text \<open>The returned expression \<open>data.candidates[0].content.parts[0].text\<close>.\<close>

definition plain_text :: "jsval \<Rightarrow> js_error + jsval" where
  "plain_text data =
     and_then (get_named (ascii ''candidates'') data) (\<lambda>cs.
     and_then (get_first cs) (\<lambda>c0.
     and_then (get_named (ascii ''content'') c0) (\<lambda>ct.
     and_then (get_named (ascii ''parts'') ct) (\<lambda>ps.
     and_then (get_first ps) (\<lambda>p0.
     get_named (ascii ''text'') p0)))))"

text \<open>The \<open>try\<close> block: the value it returns, or what it throws.\<close>

definition try_block :: "gateway \<Rightarrow> request \<Rightarrow> js_error + jsval" where
  "try_block gw req =
     and_then (fetch_json gw req) (\<lambda>data.
     and_then (guarded_text data) (\<lambda>g.
       if truthy g then plain_text data else Inr (JStr TROUBLE)))"

text \<open>
  \<open>getAIResponse\<close> with the configured key (\<open>None\<close> for an unset
  \<open>VITE_GEMINI_API_KEY\<close>), the gateway and the user's text. The result is what the promise
  settles with (\<open>Inl\<close> a rejection) and the fetches and console errors made on the way.
  The declared result type is \<open>string\<close>, but \<open>data\<close> is untyped, so the value returned is
  whatever the response holds at \<open>text\<close>.
\<close>

definition getAIResponse ::
  "jsstring option \<Rightarrow> gateway \<Rightarrow> jsstring \<Rightarrow> (js_error + jsval) \<times> effect list" where
  "getAIResponse apiKey gw userMessage =
     (case apiKey of
        None \<Rightarrow> (Inr (JStr STUDY_TIPS), [])
      | Some k \<Rightarrow>
          if k = [] then (Inr (JStr STUDY_TIPS), [])
          else
            (case try_block gw (gemini_request k userMessage) of
               Inr v \<Rightarrow> (Inr v, [Fetch (gemini_request k userMessage)])
             | Inl error \<Rightarrow>
                 (Inr (JStr TECHNICAL),
                  [Fetch (gemini_request k userMessage),
                   ConsoleError (ascii ''Error calling Gemini API:'') error])))"



section \<open>The Conversation Widget: \<open>ChatBot\<close>\<close>

datatype role = User | Assistant

text \<open>
  \<open>content\<close> is declared a string; it holds what \<open>getAIResponse\<close> returned, whatever that
  is. \<open>timestamp\<close> is the \<open>Date\<close> as milliseconds since the epoch.
\<close>

record message =
  id' :: jsstring
  role :: role
  content :: jsval
  timestamp :: int

record widget =
  isOpen :: bool
  messages :: "message list"
  input :: jsstring
  isLoading :: bool

definition GREETING :: jsstring where
  "GREETING = ascii ''Hi! I'm your EduPath study assistant. I can help you with JEE, NEET, and BTech subjects. What would you like to know?''"

definition greeting :: "int \<Rightarrow> message" where
  "greeting date = \<lparr> id' = ascii ''1'', role = Assistant, content = JStr GREETING, timestamp = date \<rparr>"

text \<open>The state of the first render; \<open>date\<close> is \<open>new Date()\<close> at that moment.\<close>

definition ChatBot :: "int \<Rightarrow> widget" where
  "ChatBot date = \<lparr> isOpen = False, messages = [greeting date], input = [], isLoading = False \<rparr>"

text \<open>
  \<open>String.prototype.trim\<close> removes the white space and line terminator code units of
  ECMAScript from both ends.
\<close>

definition isWhiteSpace :: "16 word \<Rightarrow> bool" where
  "isWhiteSpace c \<longleftrightarrow>
     c \<in> set [0x0009, 0x000A, 0x000B, 0x000C, 0x000D, 0x0020, 0x00A0, 0x1680,
              0x2000, 0x2001, 0x2002, 0x2003, 0x2004, 0x2005, 0x2006, 0x2007, 0x2008,
              0x2009, 0x200A, 0x2028, 0x2029, 0x202F, 0x205F, 0x3000, 0xFEFF]"

definition trim :: "jsstring \<Rightarrow> jsstring" where
  "trim s = rev (dropWhile isWhiteSpace (rev (dropWhile isWhiteSpace s)))"

text \<open>
  \<open>Number.prototype.toString\<close> on an integer: its decimal digits, with a minus sign when
  negative. \<open>Date.now()\<close> is an integer of magnitude below \<open>8.64e15\<close>, where the double is
  exact and is printed without an exponent.
\<close>

fun digits :: "nat \<Rightarrow> jsstring" where
  "digits n = (if n < 10 then [0x30 + of_nat n] else digits (n div 10) @ [0x30 + of_nat (n mod 10)])"

definition toString :: "int \<Rightarrow> jsstring" where
  "toString i = (if i < 0 then 0x2D # digits (nat (- i)) else digits (nat i))"

text \<open>
  \<open>handleSend\<close> up to its \<open>await\<close>. \<open>now\<close> is the reading of \<open>Date.now()\<close> and \<open>date\<close>
  that of \<open>new Date()\<close>. The second component is the argument of the call of
  \<open>getAIResponse\<close> that is started, \<open>None\<close> when the handler returns at its guard.
\<close>

definition handleSend_begin :: "int \<Rightarrow> int \<Rightarrow> widget \<Rightarrow> widget \<times> jsstring option" where
  "handleSend_begin now date s =
     (if trim (input s) = [] \<or> isLoading s then (s, None)
      else
        (s\<lparr> messages := messages s @
              [\<lparr> id' = toString now, role = User, content = JStr (trim (input s)), timestamp = date \<rparr>],
            input := [],
            isLoading := True \<rparr>,
         Some (trim (input s))))"

text \<open>
  \<open>handleSend\<close> from the \<open>await\<close> on: \<open>r\<close> is what the awaited promise settled with,
  \<open>s\<close> the state at that moment. The \<open>finally\<close> block runs on both paths.
\<close>

definition handleSend_resume :: "int \<Rightarrow> int \<Rightarrow> js_error + jsval \<Rightarrow> widget \<Rightarrow> widget \<times> effect list" where
  "handleSend_resume now date r s =
     (case r of
        Inr aiResponse \<Rightarrow>
          (s\<lparr> messages := messages s @
                [\<lparr> id' = toString (now + 1), role = Assistant, content = aiResponse, timestamp = date \<rparr>],
              isLoading := False \<rparr>,
           [])
      | Inl error \<Rightarrow>
          (s\<lparr> isLoading := False \<rparr>,
           [ConsoleError (ascii ''Error getting AI response:'') error]))"

text \<open>
  \<open>handleSend\<close> as a whole, when nothing else happens between its start and the settling of
  the call it awaits: \<open>now'\<close> and \<open>date'\<close> are the clock readings after the \<open>await\<close>.
\<close>

definition handleSend ::
  "jsstring option \<Rightarrow> gateway \<Rightarrow> int \<Rightarrow> int \<Rightarrow> int \<Rightarrow> int \<Rightarrow> widget \<Rightarrow> widget \<times> effect list" where
  "handleSend apiKey gw now date now' date' s =
     (case handleSend_begin now date s of
        (s1, None) \<Rightarrow> (s1, [])
      | (s1, Some userContent) \<Rightarrow>
          (case getAIResponse apiKey gw userContent of
             (r, fx) \<Rightarrow>
               (case handleSend_resume now' date' r s1 of
                  (s2, fx') \<Rightarrow> (s2, fx @ fx'))))"

definition handleKeyPress :: "jsstring \<Rightarrow> bool \<Rightarrow> int \<Rightarrow> int \<Rightarrow> widget \<Rightarrow> widget \<times> jsstring option" where
  "handleKeyPress key shiftKey now date s =
     (if key = ascii ''Enter'' \<and> \<not> shiftKey then handleSend_begin now date s else (s, None))"


section \<open>The widget over time\<close>

text \<open>
  Between the start of a round trip and its end the widget keeps handling events. A session
  is the rendered state together with the suspended call of \<open>handleSend\<close>, if any: the text
  it passed to \<open>getAIResponse\<close>. Every handler runs on the state of the latest render.
\<close>

record session =
  ui :: widget
  pending :: "jsstring option"

text \<open>
  The events: the two visibility buttons, typing, a key press in the input field, a click on
  the send button (each with the clock readings the handler would take), and the settling of
  the pending call, with the gateway's behaviour and the clock readings at that moment.
\<close>

datatype event =
    Open
  | Close
  | Change jsstring
  | KeyPress jsstring bool int int
  | Click int int
  | Settle gateway int int

definition started :: "widget \<times> jsstring option \<Rightarrow> session \<Rightarrow> session" where
  "started r c =
     (case r of
        (s, None) \<Rightarrow> c\<lparr> ui := s \<rparr>
      | (s, Some text) \<Rightarrow> c\<lparr> ui := s, pending := Some text \<rparr>)"

fun step :: "jsstring option \<Rightarrow> event \<Rightarrow> session \<Rightarrow> session" where
  "step apiKey Open c = c\<lparr> ui := (ui c)\<lparr> isOpen := True \<rparr> \<rparr>"
| "step apiKey Close c = c\<lparr> ui := (ui c)\<lparr> isOpen := False \<rparr> \<rparr>"
| "step apiKey (Change text) c = c\<lparr> ui := (ui c)\<lparr> input := text \<rparr> \<rparr>"
| "step apiKey (KeyPress key shiftKey now date) c = started (handleKeyPress key shiftKey now date (ui c)) c"
| "step apiKey (Click now date) c = started (handleSend_begin now date (ui c)) c"
| "step apiKey (Settle gw now date) c =
     (case pending c of
        None \<Rightarrow> c
      | Some text \<Rightarrow>
          \<lparr> ui = fst (handleSend_resume now date (fst (getAIResponse apiKey gw text)) (ui c)),
            pending = None \<rparr>)"

fun run :: "jsstring option \<Rightarrow> event list \<Rightarrow> session \<Rightarrow> session" where
  "run apiKey [] c = c"
| "run apiKey (e # es) c = run apiKey es (step apiKey e c)"

definition mount :: "int \<Rightarrow> session" where
  "mount date = \<lparr> ui = ChatBot date, pending = None \<rparr>"


section \<open>Notions used in the statements\<close>

text \<open>
  The value of the returned expression \<open>data.candidates[0].content.parts[0].text\<close>, and
  \<open>undefined\<close> when reading it throws because a step of the path is missing.
\<close>

definition text_at :: "jsval \<Rightarrow> jsval" where
  "text_at data = (case plain_text data of Inl e \<Rightarrow> JUndefined | Inr v \<Rightarrow> v)"

fun settles :: "event \<Rightarrow> bool" where
  "settles (Settle gw now date) = True"
| "settles e = False"

text \<open>
  A run of events whose clock readings are spaced: with \<open>hi\<close> the largest number already
  used for an id, a submission reads a clock value above \<open>hi\<close>, and a completion reads one
  that is not below \<open>hi\<close> (its id is that reading plus one).
\<close>

fun spaced :: "int \<Rightarrow> event list \<Rightarrow> bool" where
  "spaced hi [] = True"
| "spaced hi (Click now date # es) = (hi < now \<and> spaced now es)"
| "spaced hi (KeyPress key shiftKey now date # es) =
     (if key = ascii ''Enter'' \<and> \<not> shiftKey then hi < now \<and> spaced now es else spaced hi es)"
| "spaced hi (Settle gw now date # es) = (hi \<le> now \<and> spaced (now + 1) es)"
| "spaced hi (e # es) = spaced hi es"

text \<open>
  Two results of reading a path agree when the optional chain gave \<open>undefined\<close> where the
  plain chain threw, or both gave the same value.
\<close>

definition agree :: "js_error + jsval \<Rightarrow> js_error + jsval \<Rightarrow> bool" where
  "agree q p \<longleftrightarrow> (q = Inr JUndefined \<and> p = Inl TypeError) \<or> (\<exists>v. q = Inr v \<and> p = Inr v)"

text \<open>The ids of a conversation are distinct and are the decimal forms of numbers up to \<open>hi\<close>.\<close>

definition ids_below :: "int \<Rightarrow> session \<Rightarrow> bool" where
  "ids_below hi c \<longleftrightarrow>
     distinct (map id' (messages (ui c)))
     \<and> (\<forall>m\<in>set (messages (ui c)). \<exists>n\<le>hi. id' m = toString n)"


section \<open>Example gateways and sessions\<close>

definition offline :: gateway where
  "offline req = Rejected"

definition garbled :: gateway where
  "garbled req = Responded 200 None"

definition answering :: "nat \<Rightarrow> jsval \<Rightarrow> gateway" where
  "answering status data req = Responded status (Some data)"

text \<open>A body of the expected shape, \<open>{candidates: [{content: {parts: [{text: t}]}}]}\<close>.\<close>

definition reply_with :: "jsval \<Rightarrow> jsval" where
  "reply_with t =
     JObj [(ascii ''candidates'',
       JArr [JObj [(ascii ''content'',
         JObj [(ascii ''parts'', JArr [JObj [(ascii ''text'', t)]])])]])]"

definition NEWTON :: jsstring where
  "NEWTON = ascii ''Newton's second law states F=ma.''"

text \<open>A freshly mounted widget into which a question has been typed.\<close>

definition asking :: "jsstring \<Rightarrow> session" where
  "asking draft = \<lparr> ui = (ChatBot 0)\<lparr> input := draft \<rparr>, pending = None \<rparr>"


section \<open>Facts about the client\<close>

text \<open>The recursion equation of \<open>digits\<close> is applied where it is named, not by default.\<close>

declare digits.simps [simp del]

lemma getAIResponse_settles: "\<exists>v. fst (getAIResponse apiKey gw userMessage) = Inr v"
  by (simp add: getAIResponse_def split: option.split sum.split)

lemma nullish_not_truthy: "nullish v \<Longrightarrow> \<not> truthy v"
  by (cases v) simp_all

lemma get_named_total: "\<not> nullish v \<Longrightarrow> \<exists>w. get_named k v = Inr w"
  by (cases v) simp_all

lemma get_first_total: "\<not> nullish v \<Longrightarrow> \<exists>w. get_first v = Inr w"
  by (cases v) simp_all

lemma agree_opt_named: "agree (opt (get_named k) v) (get_named k v)"
  by (cases v) (simp_all add: agree_def opt_def)

lemma agree_opt_first: "agree (opt get_first v) (get_first v)"
  by (cases v) (simp_all add: agree_def opt_def)

lemma agree_and_then:
  assumes "agree q p" and "\<And>v. agree (F v) (G v)" and "F JUndefined = Inr JUndefined"
  shows "agree (and_then q F) (and_then p G)"
proof -
  from assms(1) consider "q = Inr JUndefined \<and> p = Inl TypeError" | v where "q = Inr v" "p = Inr v"
    unfolding agree_def by blast
  then show ?thesis
  proof cases
    case 1
    then show ?thesis using assms(3) by (simp add: agree_def and_then_def)
  next
    case 2
    then show ?thesis using assms(2)[of v] by (simp add: and_then_def)
  qed
qed

text \<open>From \<open>candidates[0]\<close> on, the guarded path and the returned path agree.\<close>

lemma agree_chain:
  "agree
     (and_then (opt (get_named (ascii ''content'')) c0) (\<lambda>ct.
      and_then (opt (get_named (ascii ''parts'')) ct) (\<lambda>ps.
      and_then (opt get_first ps) (\<lambda>p0.
      opt (get_named (ascii ''text'')) p0))))
     (and_then (get_named (ascii ''content'') c0) (\<lambda>ct.
      and_then (get_named (ascii ''parts'') ct) (\<lambda>ps.
      and_then (get_first ps) (\<lambda>p0.
      get_named (ascii ''text'') p0))))"
  by (intro agree_and_then agree_opt_named agree_opt_first)
     (simp_all add: opt_def and_then_def)

lemma falsy_candidates:
  assumes "\<not> truthy c"
  shows "and_then (get_first c) (\<lambda>c0. and_then (get_named k c0) F) = Inl TypeError"
  using assms by (cases c) (simp_all add: and_then_def)

lemma agree_result:
  assumes "agree q p"
  shows "and_then q (\<lambda>g. if truthy g then p else Inr (JStr TROUBLE))
     = Inr (if truthy (case p of Inl e \<Rightarrow> JUndefined | Inr v \<Rightarrow> v)
            then (case p of Inl e \<Rightarrow> JUndefined | Inr v \<Rightarrow> v) else JStr TROUBLE)"
  using assms by (auto simp: agree_def and_then_def)

text \<open>
  On a decoded body other than \<open>null\<close> the \<open>try\<close> block throws nothing after the decoding:
  the condition is truthy exactly when the returned expression has a truthy value.
\<close>

lemma decoded_body:
  assumes "\<not> nullish data"
  shows "and_then (guarded_text data) (\<lambda>g. if truthy g then plain_text data else Inr (JStr TROUBLE))
     = Inr (if truthy (text_at data) then text_at data else JStr TROUBLE)"
proof -
  obtain c where c: "get_named (ascii ''candidates'') data = Inr c"
    using assms get_named_total by blast
  show ?thesis
  proof (cases "truthy c")
    case False
    then have "plain_text data = Inl TypeError"
      by (simp add: plain_text_def c and_then_def falsy_candidates[unfolded and_then_def])
    with False show ?thesis
      by (simp add: guarded_text_def c and_then_def text_at_def)
  next
    case True
    then have "\<not> nullish c"
      using nullish_not_truthy by blast
    then obtain c0 where c0: "get_first c = Inr c0"
      using get_first_total by blast
    have "agree (guarded_text data) (plain_text data)"
      using agree_chain[of c0] True
      by (simp add: guarded_text_def plain_text_def c c0 and_then_def)
    then show ?thesis
      unfolding text_at_def by (rule agree_result)
  qed
qed

lemma text_at_reply_with: "text_at (reply_with t) = t"
  by (simp add: text_at_def reply_with_def plain_text_def and_then_def ascii_def)

lemma getAIResponse_reply_with:
  assumes "apiKey \<noteq> []"
  shows "fst (getAIResponse (Some apiKey) (answering status (reply_with t)) userMessage)
     = Inr (if truthy t then t else JStr TROUBLE)"
proof -
  have "\<not> nullish (reply_with t)"
    by (simp add: reply_with_def)
  from decoded_body[OF this] assms show ?thesis
    by (simp add: getAIResponse_def try_block_def fetch_json_def answering_def and_then_def
          text_at_reply_with)
qed

lemma apologies_differ: "TECHNICAL \<noteq> TROUBLE" "STUDY_TIPS \<noteq> TROUBLE" "STUDY_TIPS \<noteq> TECHNICAL"
  by (simp_all add: TECHNICAL_def TROUBLE_def STUDY_TIPS_def ascii_def)

text \<open>The study tips are a list of five bullets.\<close>

lemma five_bullets: "length (filter (\<lambda>c. c = 0x2022) STUDY_TIPS) = 5"
  by (simp add: STUDY_TIPS_def ascii_def)


section \<open>The client without a credential\<close>

text \<open>
  C3. When no gateway credential is configured (the key is unset, or set to the empty
  string), \<open>getAIResponse\<close> returns the fixed study-tips text for every user text and every
  gateway, and makes no network call (and logs nothing).
\<close>

theorem getAIResponse_no_key:
  "getAIResponse None gw userMessage = (Inr (JStr STUDY_TIPS), [])
   \<and> getAIResponse (Some []) gw userMessage = (Inr (JStr STUDY_TIPS), [])"
  by (simp add: getAIResponse_def)


section \<open>The client and the decoded body\<close>

text \<open>
  C4 as stated does not hold. A response whose body is the JSON value \<open>null\<close> lacks the
  path, and the client answers with the technical-difficulties text, not the
  trouble-generating one. A body of the expected shape whose \<open>text\<close> is the number 5 is
  returned as that number, and one whose \<open>text\<close> is the number 0, which is present and is
  not the empty string, gives the trouble-generating text.
\<close>

theorem body_shape_counterexample:
  "text_at JNull = JUndefined
   \<and> fst (getAIResponse (Some (ascii ''k'')) (answering 200 JNull) (ascii ''hi'')) = Inr (JStr TECHNICAL)
   \<and> TECHNICAL \<noteq> TROUBLE
   \<and> fst (getAIResponse (Some (ascii ''k'')) (answering 200 (reply_with (JNum (Finite 5)))) (ascii ''hi''))
       = Inr (JNum (Finite 5))
   \<and> fst (getAIResponse (Some (ascii ''k'')) (answering 200 (reply_with (JNum (Finite 0)))) (ascii ''hi''))
       = Inr (JStr TROUBLE)"
proof -
  have "text_at JNull = JUndefined"
    by (simp add: text_at_def plain_text_def and_then_def)
  moreover have "fst (getAIResponse (Some (ascii ''k'')) (answering 200 JNull) (ascii ''hi'')) = Inr (JStr TECHNICAL)"
    by (simp add: getAIResponse_def try_block_def fetch_json_def answering_def guarded_text_def
          and_then_def ascii_def)
  moreover have "ascii ''k'' \<noteq> []"
    by (simp add: ascii_def)
  moreover note getAIResponse_reply_with[of "ascii ''k''" 200 "JNum (Finite 5)" "ascii ''hi''"]
    getAIResponse_reply_with[of "ascii ''k''" 200 "JNum (Finite 0)" "ascii ''hi''"]
  ultimately show ?thesis
    using apologies_differ(1) by simp
qed

text \<open>
  C4, amended. For every gateway response whose decoded body is not \<open>null\<close>, let \<open>t\<close> be the
  value of \<open>data.candidates[0].content.parts[0].text\<close> as JavaScript reads it, \<open>undefined\<close>
  when a step of the path is missing. When \<open>t\<close> is falsy (\<open>undefined\<close>, \<open>null\<close>, \<open>false\<close>,
  0 or the empty string) \<open>getAIResponse\<close> returns exactly the trouble-generating text;
  otherwise it returns exactly \<open>t\<close>. Either way it makes the one request and logs nothing,
  whatever the HTTP status is.
\<close>

theorem getAIResponse_decoded_body:
  assumes "apiKey \<noteq> []"
    and "gw (gemini_request apiKey userMessage) = Responded status (Some data)"
    and "\<not> nullish data"
  shows "getAIResponse (Some apiKey) gw userMessage =
     (Inr (if truthy (text_at data) then text_at data else JStr TROUBLE),
      [Fetch (gemini_request apiKey userMessage)])"
  using assms decoded_body[of data]
  by (simp add: getAIResponse_def try_block_def fetch_json_def and_then_def)

text \<open>The theorem at scenario B of the specification, and at an error response.\<close>

theorem getAIResponse_decoded_body_witness:
  "ascii ''k'' \<noteq> []
   \<and> answering 200 (reply_with (JStr NEWTON)) (gemini_request (ascii ''k'') (ascii ''What is F?''))
       = Responded 200 (Some (reply_with (JStr NEWTON)))
   \<and> \<not> nullish (reply_with (JStr NEWTON))
   \<and> getAIResponse (Some (ascii ''k'')) (answering 200 (reply_with (JStr NEWTON))) (ascii ''What is F?'') =
       (Inr (JStr NEWTON), [Fetch (gemini_request (ascii ''k'') (ascii ''What is F?''))])
   \<and> getAIResponse (Some (ascii ''k'')) (answering 403 (JObj [(ascii ''error'', JStr (ascii ''denied''))]))
         (ascii ''What is F?'') =
       (Inr (JStr TROUBLE), [Fetch (gemini_request (ascii ''k'') (ascii ''What is F?''))])"
proof -
  have k: "ascii ''k'' \<noteq> []"
    by (simp add: ascii_def)
  have n: "NEWTON \<noteq> []"
    by (simp add: NEWTON_def ascii_def)
  have e: "text_at (JObj [(ascii ''error'', JStr (ascii ''denied''))]) = JUndefined"
    by (simp add: text_at_def plain_text_def and_then_def ascii_def)
  show ?thesis
    using getAIResponse_decoded_body[of "ascii ''k''" "answering 200 (reply_with (JStr NEWTON))"
        "ascii ''What is F?''" 200 "reply_with (JStr NEWTON)"]
      getAIResponse_decoded_body[of "ascii ''k''"
        "answering 403 (JObj [(ascii ''error'', JStr (ascii ''denied''))])"
        "ascii ''What is F?''" 403 "JObj [(ascii ''error'', JStr (ascii ''denied''))]"]
    by (simp add: k n e answering_def text_at_reply_with) (simp add: reply_with_def)
qed


section \<open>The client and a failing network call\<close>

text \<open>
  C5. With a credential configured, when \<open>fetch\<close> rejects or the body of the response is not
  JSON, \<open>getAIResponse\<close> throws nothing: it makes the one request, logs the error under
  \<open>Error calling Gemini API:\<close> and returns exactly the technical-difficulties text.
\<close>

theorem getAIResponse_transport_failure:
  assumes "apiKey \<noteq> []"
    and "gw (gemini_request apiKey userMessage) = Rejected
       \<or> gw (gemini_request apiKey userMessage) = Responded status None"
  shows "\<exists>error. getAIResponse (Some apiKey) gw userMessage =
     (Inr (JStr TECHNICAL),
      [Fetch (gemini_request apiKey userMessage),
       ConsoleError (ascii ''Error calling Gemini API:'') error])"
  using assms
  by (auto simp: getAIResponse_def try_block_def fetch_json_def and_then_def)

theorem getAIResponse_transport_failure_witness:
  "ascii ''k'' \<noteq> []
   \<and> offline (gemini_request (ascii ''k'') (ascii ''hi'')) = Rejected
   \<and> garbled (gemini_request (ascii ''k'') (ascii ''hi'')) = Responded 200 None
   \<and> (\<exists>error. getAIResponse (Some (ascii ''k'')) offline (ascii ''hi'') =
        (Inr (JStr TECHNICAL),
         [Fetch (gemini_request (ascii ''k'') (ascii ''hi'')),
          ConsoleError (ascii ''Error calling Gemini API:'') error]))
   \<and> (\<exists>error. getAIResponse (Some (ascii ''k'')) garbled (ascii ''hi'') =
        (Inr (JStr TECHNICAL),
         [Fetch (gemini_request (ascii ''k'') (ascii ''hi'')),
          ConsoleError (ascii ''Error calling Gemini API:'') error]))"
proof -
  have k: "ascii ''k'' \<noteq> []"
    by (simp add: ascii_def)
  have off: "offline (gemini_request (ascii ''k'') (ascii ''hi'')) = Rejected"
    by (simp add: offline_def)
  have gar: "garbled (gemini_request (ascii ''k'') (ascii ''hi'')) = Responded 200 None"
    by (simp add: garbled_def)
  from k off gar
    getAIResponse_transport_failure[of "ascii ''k''" offline "ascii ''hi''" 0]
    getAIResponse_transport_failure[of "ascii ''k''" garbled "ascii ''hi''" 200]
  show ?thesis
    by blast
qed


section \<open>The client and a body that is \<open>null\<close>\<close>

text \<open>
  C10 at the response \<open>200\<close> with body \<open>null\<close>: the body is JSON and holds no text, reading
  \<open>data.candidates\<close> throws inside the \<open>try\<close> block, and the client logs the error and
  returns the technical-difficulties text, which is not the trouble-generating text.
\<close>

theorem getAIResponse_null_body:
  "getAIResponse (Some (ascii ''k'')) (answering 200 JNull) userMessage =
     (Inr (JStr TECHNICAL),
      [Fetch (gemini_request (ascii ''k'') userMessage),
       ConsoleError (ascii ''Error calling Gemini API:'') TypeError])
   \<and> TECHNICAL \<noteq> TROUBLE"
  using apologies_differ(1)
  by (simp add: getAIResponse_def try_block_def fetch_json_def answering_def guarded_text_def
        and_then_def ascii_def)


section \<open>Facts about the handlers\<close>

lemma handleSend_begin_guard:
  "trim (input s) = [] \<or> isLoading s \<Longrightarrow> handleSend_begin now date s = (s, None)"
  by (simp add: handleSend_begin_def)

lemma handleSend_begin_prefix: "prefix (messages s) (messages (fst (handleSend_begin now date s)))"
  by (simp add: handleSend_begin_def)

lemma handleSend_resume_prefix: "prefix (messages s) (messages (fst (handleSend_resume now date r s)))"
  by (simp add: handleSend_resume_def split: sum.split)

lemma handleKeyPress_prefix: "prefix (messages s) (messages (fst (handleKeyPress key shiftKey now date s)))"
  by (simp add: handleKeyPress_def handleSend_begin_prefix)

lemma ui_started: "ui (started r c) = fst r"
  by (cases r) (simp add: started_def split: option.split)

lemma step_prefix: "prefix (messages (ui c)) (messages (ui (step apiKey e c)))"
  by (cases e)
     (simp_all add: ui_started handleSend_begin_prefix handleKeyPress_prefix handleSend_resume_prefix
        split: option.split)

lemma run_prefix: "prefix (messages (ui c)) (messages (ui (run apiKey evs c)))"
proof (induction evs arbitrary: c)
  case Nil
  show ?case by simp
next
  case (Cons e evs)
  have "prefix (messages (ui c)) (messages (ui (step apiKey e c)))"
    by (rule step_prefix)
  also have "prefix \<dots> (messages (ui (run apiKey evs (step apiKey e c))))"
    by (rule Cons.IH)
  finally show ?case by simp
qed

lemma busy_step:
  assumes "isLoading (ui c)" and "\<not> settles e"
  shows "messages (ui (step apiKey e c)) = messages (ui c)
     \<and> isLoading (ui (step apiKey e c)) \<and> pending (step apiKey e c) = pending c"
  using assms
  by (cases e) (simp_all add: started_def handleKeyPress_def handleSend_begin_def)

lemma busy_run:
  assumes "isLoading (ui c)" and "\<forall>e\<in>set evs. \<not> settles e"
  shows "messages (ui (run apiKey evs c)) = messages (ui c)
     \<and> isLoading (ui (run apiKey evs c)) \<and> pending (run apiKey evs c) = pending c"
  using assms
proof (induction evs arbitrary: c)
  case Nil
  then show ?case by simp
next
  case (Cons e evs)
  from Cons.prems have st: "messages (ui (step apiKey e c)) = messages (ui c)
     \<and> isLoading (ui (step apiKey e c)) \<and> pending (step apiKey e c) = pending c"
    by (intro busy_step) simp_all
  with Cons.IH[of "step apiKey e c"] Cons.prems show ?case
    by simp
qed

lemma run_append: "run apiKey (xs @ ys) c = run apiKey ys (run apiKey xs c)"
  by (induction xs arbitrary: c) simp_all


text \<open>A click and the settling of its call, back to back, are \<open>handleSend\<close> as a whole.\<close>

lemma handleSend_run:
  assumes "pending c = None"
  shows "ui (run apiKey [Click now date, Settle gw now' date'] c)
     = fst (handleSend apiKey gw now date now' date' (ui c))"
  using assms
  by (cases "getAIResponse apiKey gw (trim (input (ui c)))")
     (simp add: handleSend_def started_def handleSend_begin_def handleSend_resume_def
        split: sum.split)

text \<open>
  From the first render on, the busy flag is set exactly while a call is pending, so a
  started call never replaces a pending one.
\<close>

lemma busy_iff_pending_step:
  assumes "isLoading (ui c) \<longleftrightarrow> pending c \<noteq> None"
  shows "isLoading (ui (step apiKey e c)) \<longleftrightarrow> pending (step apiKey e c) \<noteq> None"
  using assms
  by (cases e)
     (auto simp: started_def handleKeyPress_def handleSend_begin_def handleSend_resume_def
        split: option.splits sum.splits)

lemma busy_iff_pending:
  "isLoading (ui (run apiKey evs (mount date))) \<longleftrightarrow> pending (run apiKey evs (mount date)) \<noteq> None"
proof -
  have "isLoading (ui (run apiKey evs c)) \<longleftrightarrow> pending (run apiKey evs c) \<noteq> None"
    if "isLoading (ui c) \<longleftrightarrow> pending c \<noteq> None" for c
    using that
  proof (induction evs arbitrary: c)
    case Nil
    then show ?case by simp
  next
    case (Cons e evs)
    from Cons.prems have "isLoading (ui (step apiKey e c)) \<longleftrightarrow> pending (step apiKey e c) \<noteq> None"
      by (rule busy_iff_pending_step)
    then show ?case
      using Cons.IH by simp
  qed
  then show ?thesis
    by (simp add: mount_def ChatBot_def)
qed


section \<open>Submitting\<close>

text \<open>
  C1. In a state whose draft is non-empty after trimming and whose busy flag is off, a
  submission appends at once one \<open>user\<close> message holding the trimmed draft, clears the draft,
  sets the busy flag and starts the client on the trimmed text; the conversation is one
  longer. Whatever happens before the call settles, short of the settling itself, and
  whatever the credential and the gateway are, the client returns a value, and the settling
  appends one \<open>assistant\<close> message holding that value and clears the busy flag: the
  conversation is then exactly two longer than before the submission.
\<close>

theorem submit_adds_two:
  assumes "trim (input (ui c)) \<noteq> []" and "\<not> isLoading (ui c)" and "\<forall>e\<in>set evs. \<not> settles e"
  shows "\<exists>aiResponse.
     fst (getAIResponse apiKey gw (trim (input (ui c)))) = Inr aiResponse
     \<and> messages (ui (step apiKey (Click now date) c)) =
         messages (ui c) @
           [\<lparr> id' = toString now, role = User, content = JStr (trim (input (ui c))), timestamp = date \<rparr>]
     \<and> length (messages (ui (step apiKey (Click now date) c))) = length (messages (ui c)) + 1
     \<and> input (ui (step apiKey (Click now date) c)) = []
     \<and> isLoading (ui (step apiKey (Click now date) c))
     \<and> pending (step apiKey (Click now date) c) = Some (trim (input (ui c)))
     \<and> messages (ui (run apiKey (Click now date # evs @ [Settle gw now' date']) c)) =
         messages (ui c) @
           [\<lparr> id' = toString now, role = User, content = JStr (trim (input (ui c))), timestamp = date \<rparr>,
            \<lparr> id' = toString (now' + 1), role = Assistant, content = aiResponse, timestamp = date' \<rparr>]
     \<and> length (messages (ui (run apiKey (Click now date # evs @ [Settle gw now' date']) c))) =
         length (messages (ui c)) + 2
     \<and> \<not> isLoading (ui (run apiKey (Click now date # evs @ [Settle gw now' date']) c))"
proof -
  let ?text = "trim (input (ui c))"
  let ?c1 = "step apiKey (Click now date) c"
  let ?user = "\<lparr> id' = toString now, role = User, content = JStr ?text, timestamp = date \<rparr>"
  obtain aiResponse where ai: "fst (getAIResponse apiKey gw ?text) = Inr aiResponse"
    using getAIResponse_settles by blast
  from assms(1,2) have c1: "messages (ui ?c1) = messages (ui c) @ [?user]"
    "input (ui ?c1) = []" "isLoading (ui ?c1)" "pending ?c1 = Some ?text"
    by (simp_all add: started_def handleSend_begin_def)
  let ?c2 = "run apiKey evs ?c1"
  from busy_run[OF c1(3) assms(3), of apiKey] c1
  have c2: "messages (ui ?c2) = messages (ui c) @ [?user]" "pending ?c2 = Some ?text"
    by simp_all
  let ?c3 = "step apiKey (Settle gw now' date') ?c2"
  have run: "run apiKey (Click now date # evs @ [Settle gw now' date']) c = ?c3"
    by (simp add: run_append)
  from c2 ai have c3: "messages (ui ?c3) = messages (ui c) @
      [?user, \<lparr> id' = toString (now' + 1), role = Assistant, content = aiResponse, timestamp = date' \<rparr>]"
    "\<not> isLoading (ui ?c3)"
    by (simp_all add: handleSend_resume_def)
  from ai c1 c3 show ?thesis
    unfolding run by (intro exI[of _ aiResponse]) simp
qed


text \<open>
  The theorem at scenario A of the specification, with the widget closed, a second click
  made and the widget reopened while the call is pending.
\<close>

theorem submit_adds_two_witness:
  "trim (input (ui (asking (ascii '' How do I study for NEET?  '')))) \<noteq> []
   \<and> \<not> isLoading (ui (asking (ascii '' How do I study for NEET?  '')))
   \<and> \<not> settles Close \<and> \<not> settles (Click 5 5) \<and> \<not> settles Open
   \<and> messages (ui (run None (Click 1000 1001 # [Close, Click 5 5, Open] @ [Settle offline 1002 1003])
         (asking (ascii '' How do I study for NEET?  '')))) =
       [greeting 0,
        \<lparr> id' = ascii ''1000'', role = User, content = JStr (ascii ''How do I study for NEET?''),
          timestamp = 1001 \<rparr>,
        \<lparr> id' = ascii ''1003'', role = Assistant, content = JStr STUDY_TIPS, timestamp = 1003 \<rparr>]"
proof -
  let ?c = "asking (ascii '' How do I study for NEET?  '')"
  have t: "trim (input (ui ?c)) = ascii ''How do I study for NEET?''"
    by (simp add: asking_def ChatBot_def trim_def isWhiteSpace_def ascii_def)
  have ne: "trim (input (ui ?c)) \<noteq> []"
    unfolding t by (simp add: ascii_def)
  have idle: "\<not> isLoading (ui ?c)"
    by (simp add: asking_def ChatBot_def)
  have quiet: "\<forall>e\<in>set [Close, Click 5 5, Open]. \<not> settles e"
    by simp
  have m: "messages (ui ?c) = [greeting 0]"
    by (simp add: asking_def ChatBot_def)
  have ids: "toString 1000 = ascii ''1000''" "toString (1002 + 1) = ascii ''1003''"
    by (simp_all add: toString_def digits.simps ascii_def)
  have tips: "fst (getAIResponse None offline (ascii ''How do I study for NEET?'')) = Inr (JStr STUDY_TIPS)"
    by (simp add: getAIResponse_def)
  from submit_adds_two[OF ne idle quiet, of None offline 1000 1001 1002 1003]
  have "messages (ui (run None (Click 1000 1001 # [Close, Click 5 5, Open] @ [Settle offline 1002 1003]) ?c)) =
       [greeting 0,
        \<lparr> id' = ascii ''1000'', role = User, content = JStr (ascii ''How do I study for NEET?''),
          timestamp = 1001 \<rparr>,
        \<lparr> id' = ascii ''1003'', role = Assistant, content = JStr STUDY_TIPS, timestamp = 1003 \<rparr>]"
    unfolding t tips m ids by auto
  with ne idle show ?thesis
    by simp
qed

text \<open>
  C2. In a state whose busy flag is on, or whose draft is empty after trimming, a submission
  does nothing: the state (conversation, draft, busy flag, visibility) is the same and no
  client call is started, by the button and by the Enter key alike.
\<close>

theorem submit_ignored:
  assumes "isLoading s \<or> trim (input s) = []"
  shows "handleSend_begin now date s = (s, None)
     \<and> step apiKey (Click now date) \<lparr> ui = s, pending = p \<rparr> = \<lparr> ui = s, pending = p \<rparr>
     \<and> step apiKey (KeyPress (ascii ''Enter'') False now date) \<lparr> ui = s, pending = p \<rparr>
         = \<lparr> ui = s, pending = p \<rparr>"
  using assms by (auto simp: handleSend_begin_def handleKeyPress_def started_def)

text \<open>The theorem at a blank draft, and at a busy widget holding a draft.\<close>

theorem submit_ignored_witness:
  "trim (input ((ChatBot 0)\<lparr> input := ascii ''   '' \<rparr>)) = []
   \<and> handleSend_begin 7 8 ((ChatBot 0)\<lparr> input := ascii ''   '' \<rparr>)
       = ((ChatBot 0)\<lparr> input := ascii ''   '' \<rparr>, None)
   \<and> isLoading ((ChatBot 0)\<lparr> input := ascii ''more'', isLoading := True \<rparr>)
   \<and> handleSend_begin 7 8 ((ChatBot 0)\<lparr> input := ascii ''more'', isLoading := True \<rparr>)
       = ((ChatBot 0)\<lparr> input := ascii ''more'', isLoading := True \<rparr>, None)"
proof -
  have blank: "trim (input ((ChatBot 0)\<lparr> input := ascii ''   '' \<rparr>)) = []"
    by (simp add: trim_def isWhiteSpace_def ascii_def)
  have busy: "isLoading ((ChatBot 0)\<lparr> input := ascii ''more'', isLoading := True \<rparr>)"
    by simp
  from blank busy
    submit_ignored[of "(ChatBot 0)\<lparr> input := ascii ''   '' \<rparr>" 7 8]
    submit_ignored[of "(ChatBot 0)\<lparr> input := ascii ''more'', isLoading := True \<rparr>" 7 8]
  show ?thesis
    by blast
qed


section \<open>The end of a round trip\<close>

text \<open>
  C6. When the awaited client call rejects, the continuation of \<open>handleSend\<close> appends no
  message, logs the error under \<open>Error getting AI response:\<close> and does nothing else but
  clear the busy flag; and the busy flag is off after the continuation whatever the call
  settled with.
\<close>

theorem busy_cleared:
  "handleSend_resume now date (Inl error) s =
     (s\<lparr> isLoading := False \<rparr>, [ConsoleError (ascii ''Error getting AI response:'') error])
   \<and> messages (fst (handleSend_resume now date (Inl error) s)) = messages s
   \<and> \<not> isLoading (fst (handleSend_resume now date r s))"
  by (simp add: handleSend_resume_def split: sum.split)


section \<open>The conversation\<close>

text \<open>
  C8. The first render holds exactly one message, the greeting, whose role is \<open>assistant\<close>
  and whose content is the greeting text; and after every sequence of events the
  conversation still begins with that very message.
\<close>

theorem greeting_first:
  "messages (ui (mount date)) = [greeting date]
   \<and> role (greeting date) = Assistant
   \<and> content (greeting date) = JStr GREETING
   \<and> take 1 (messages (ui (run apiKey evs (mount date)))) = [greeting date]"
proof -
  have m: "messages (ui (mount date)) = [greeting date]"
    by (simp add: mount_def ChatBot_def)
  have "prefix [greeting date] (messages (ui (run apiKey evs (mount date))))"
    using run_prefix[of "mount date" apiKey evs] by (simp only: m)
  then have "take 1 (messages (ui (run apiKey evs (mount date)))) = [greeting date]"
    by (auto simp: prefix_def)
  with m show ?thesis
    by (simp add: greeting_def)
qed

text \<open>
  C9. The conversation is append-only: the two halves of \<open>handleSend\<close>, every single event
  (opening, closing, typing, a key press, a click, the settling of a call) and every sequence
  of events leave the messages they found as a prefix of the messages they leave, so no
  message is removed, moved or edited and the length never decreases.
\<close>

theorem append_only:
  "prefix (messages s) (messages (fst (handleSend_begin now date s)))
   \<and> prefix (messages s) (messages (fst (handleSend_resume now date r s)))
   \<and> prefix (messages (ui c)) (messages (ui (step apiKey e c)))
   \<and> prefix (messages (ui c)) (messages (ui (run apiKey evs c)))
   \<and> length (messages (ui c)) \<le> length (messages (ui (run apiKey evs c)))"
  using run_prefix[of c apiKey evs]
  by (simp add: handleSend_begin_prefix handleSend_resume_prefix step_prefix prefix_length_le)


section \<open>Message ids\<close>

text \<open>\<open>toString\<close> is injective on the integers.\<close>

lemma digit_unat: "d < 10 \<Longrightarrow> unat (0x30 + of_nat d :: 16 word) = 48 + d"
  by (simp add: unat_word_ariths unat_of_nat)

lemma digit_inj:
  assumes "a < 10" and "b < 10" and "(0x30 + of_nat a :: 16 word) = 0x30 + of_nat b"
  shows "a = b"
proof -
  have "unat (0x30 + of_nat a :: 16 word) = unat (0x30 + of_nat b :: 16 word)"
    using assms(3) by simp
  then show ?thesis
    using assms(1,2) by (simp only: digit_unat)
qed

lemma digits_small: "n < 10 \<Longrightarrow> digits n = [0x30 + of_nat n]"
  by (subst digits.simps) simp

lemma digits_big: "\<not> n < 10 \<Longrightarrow> digits n = digits (n div 10) @ [0x30 + of_nat (n mod 10)]"
  by (subst digits.simps) simp

lemma digits_nonempty: "digits n \<noteq> []"
  by (cases "n < 10") (simp_all add: digits_small digits_big)

lemma digits_inj: "digits a = digits b \<Longrightarrow> a = b"
proof (induction a arbitrary: b rule: digits.induct)
  case (1 a)
  show ?case
  proof (cases "a < 10")
    case small_a: True
    show ?thesis
    proof (cases "b < 10")
      case True
      from "1.prems" have "(0x30 + of_nat a :: 16 word) = 0x30 + of_nat b"
        unfolding digits_small[OF small_a] digits_small[OF True] list.inject by (rule conjunct1)
      with small_a True show ?thesis
        by (rule digit_inj)
    next
      case False
      from "1.prems" have "[0x30 + of_nat a] = digits (b div 10) @ [0x30 + of_nat (b mod 10)]"
        unfolding digits_small[OF small_a] digits_big[OF False] .
      then have "digits (b div 10) = []"
        by simp
      then show ?thesis
        using digits_nonempty by blast
    qed
  next
    case big_a: False
    show ?thesis
    proof (cases "b < 10")
      case True
      from "1.prems" have "digits (a div 10) @ [0x30 + of_nat (a mod 10)] = [0x30 + of_nat b]"
        unfolding digits_big[OF big_a] digits_small[OF True] .
      then have "digits (a div 10) = []"
        by simp
      then show ?thesis
        using digits_nonempty by blast
    next
      case False
      from "1.prems"
      have "digits (a div 10) @ [0x30 + of_nat (a mod 10)] = digits (b div 10) @ [0x30 + of_nat (b mod 10)]"
        unfolding digits_big[OF big_a] digits_big[OF False] .
      then have both: "digits (a div 10) = digits (b div 10)
          \<and> (0x30 + of_nat (a mod 10) :: 16 word) = 0x30 + of_nat (b mod 10)"
        by (simp only: append1_eq_conv)
      from both have eq: "digits (a div 10) = digits (b div 10)" ..
      from both have last: "(0x30 + of_nat (a mod 10) :: 16 word) = 0x30 + of_nat (b mod 10)" ..
      from big_a eq have "a div 10 = b div 10"
        by (rule "1.IH")
      moreover have "a mod 10 = b mod 10"
        by (rule digit_inj[OF _ _ last]) simp_all
      ultimately show ?thesis
        by (metis div_mult_mod_eq)
    qed
  qed
qed

lemma minus_not_digit: "0x2D \<notin> set (digits n)"
proof (induction n rule: digits.induct)
  case (1 n)
  have d: "(0x30 + of_nat d :: 16 word) \<noteq> 0x2D" if "d < 10" for d
  proof
    assume "(0x30 + of_nat d :: 16 word) = 0x2D"
    then have "unat (0x30 + of_nat d :: 16 word) = unat (0x2D :: 16 word)"
      by (rule arg_cong)
    with that show False
      by (simp only: digit_unat) simp
  qed
  show ?case
  proof (cases "n < 10")
    case True
    then show ?thesis
      using d[of n] by (auto simp: digits_small)
  next
    case False
    then show ?thesis
      using "1.IH" d[of "n mod 10"] by (auto simp: digits_big)
  qed
qed

lemma toString_inj: "toString a = toString b \<Longrightarrow> a = b"
proof -
  assume eq: "toString a = toString b"
  have neg: False if "toString x = toString y" "x < 0" "\<not> y < 0" for x y
  proof -
    from that have "0x2D # digits (nat (- x)) = digits (nat y)"
      by (simp add: toString_def)
    then have "0x2D \<in> set (digits (nat y))"
      by (metis list.set_intros(1))
    then show False using minus_not_digit by blast
  qed
  show "a = b"
  proof (cases "a < 0")
    case True
    show ?thesis
    proof (cases "b < 0")
      case b: True
      with True eq have "digits (nat (- a)) = digits (nat (- b))" by (simp add: toString_def)
      then have "nat (- a) = nat (- b)" by (rule digits_inj)
      with True b show ?thesis by simp
    next
      case False
      with True eq neg show ?thesis by blast
    qed
  next
    case False
    show ?thesis
    proof (cases "b < 0")
      case True
      with False eq neg[of b a] show ?thesis by simp
    next
      case b: False
      with False eq have "digits (nat a) = digits (nat b)" by (simp add: toString_def)
      then have "nat a = nat b" by (rule digits_inj)
      with False b show ?thesis by simp
    qed
  qed
qed


text \<open>
  C7 as stated does not hold. With no credential, a submission at clock reading 1000 whose
  call settles in the same millisecond gives the assistant message the id \<open>1001\<close>; a
  submission at clock reading 1001 then gives the next user message the id \<open>1001\<close> too.
\<close>

theorem ids_counterexample:
  "\<not> distinct (map id' (messages (ui (run None
       [Change (ascii ''a''), Click 1000 1000, Settle offline 1000 1000,
        Change (ascii ''b''), Click 1001 1001]
       (mount 0)))))"
  by (simp add: mount_def ChatBot_def greeting_def started_def handleSend_begin_def
        handleSend_resume_def getAIResponse_def trim_def isWhiteSpace_def toString_def
        digits.simps ascii_def)

lemma ids_below_mono: "ids_below hi c \<Longrightarrow> hi \<le> hi' \<Longrightarrow> ids_below hi' c"
  unfolding ids_below_def by (meson order_trans)

lemma ids_below_same:
  "messages (ui c') = messages (ui c) \<Longrightarrow> ids_below hi c \<Longrightarrow> ids_below hi c'"
  by (simp add: ids_below_def)

lemma ids_below_snoc:
  assumes "ids_below hi c" and "hi < n" and "messages (ui c') = messages (ui c) @ [m]"
    and "id' m = toString n"
  shows "ids_below n c'"
proof -
  have "id' m \<notin> id' ` set (messages (ui c))"
  proof
    assume "id' m \<in> id' ` set (messages (ui c))"
    then obtain m' where m': "m' \<in> set (messages (ui c))" "id' m' = id' m"
      by auto
    with assms(1) obtain k where "k \<le> hi" "id' m' = toString k"
      unfolding ids_below_def by blast
    with m'(2) assms(4) have "k = n"
      using toString_inj by simp
    with \<open>k \<le> hi\<close> assms(2) show False
      by simp
  qed
  moreover have "\<exists>k\<le>n. id' x = toString k" if "x \<in> set (messages (ui c))" for x
    using assms(1,2) that unfolding ids_below_def by (meson less_imp_le order_trans)
  ultimately show ?thesis
    using assms(1,3,4) unfolding ids_below_def by auto
qed

lemma ids_below_begin:
  assumes "ids_below hi c" and "hi < now"
  shows "ids_below now (started (handleSend_begin now date (ui c)) c)"
proof (cases "trim (input (ui c)) = [] \<or> isLoading (ui c)")
  case True
  then have "messages (ui (started (handleSend_begin now date (ui c)) c)) = messages (ui c)"
    by (simp add: ui_started handleSend_begin_def)
  then have "ids_below hi (started (handleSend_begin now date (ui c)) c)"
    using assms(1) by (rule ids_below_same)
  then show ?thesis
    using assms(2) by (intro ids_below_mono[of hi _ now]) simp_all
next
  case False
  then show ?thesis
    by (intro ids_below_snoc[OF assms, of _
          "\<lparr> id' = toString now, role = User, content = JStr (trim (input (ui c))), timestamp = date \<rparr>"])
       (simp_all add: ui_started handleSend_begin_def)
qed

lemma ids_below_step:
  assumes "ids_below hi c" and "spaced hi (e # es)"
  shows "\<exists>hi'. ids_below hi' (step apiKey e c) \<and> spaced hi' es"
proof (cases e)
  case Open
  with assms show ?thesis
    by (intro exI[of _ hi]) (simp add: ids_below_def)
next
  case Close
  with assms show ?thesis
    by (intro exI[of _ hi]) (simp add: ids_below_def)
next
  case (Change draft)
  with assms show ?thesis
    by (intro exI[of _ hi]) (simp add: ids_below_def)
next
  case (KeyPress key shiftKey now date)
  show ?thesis
  proof (cases "key = ascii ''Enter'' \<and> \<not> shiftKey")
    case True
    with KeyPress assms(2) have "hi < now" "spaced now es"
      by simp_all
    with True KeyPress ids_below_begin[OF assms(1), of now date] show ?thesis
      by (intro exI[of _ now]) (simp add: handleKeyPress_def)
  next
    case False
    with KeyPress assms show ?thesis
      by (intro exI[of _ hi]) (auto simp: handleKeyPress_def started_def ids_below_def)
  qed
next
  case (Click now date)
  with assms(2) have "hi < now" "spaced now es"
    by simp_all
  with Click ids_below_begin[OF assms(1), of now date] show ?thesis
    by (intro exI[of _ now]) simp
next
  case (Settle gw now date)
  with assms(2) have sp: "hi \<le> now" "spaced (now + 1) es"
    by simp_all
  show ?thesis
  proof (cases "pending c")
    case None
    with Settle have "ids_below hi (step apiKey e c)"
      using assms(1) by simp
    then have "ids_below (now + 1) (step apiKey e c)"
      using sp(1) by (intro ids_below_mono[of hi _ "now + 1"]) simp_all
    with sp(2) show ?thesis by blast
  next
    case (Some question)
    obtain v where v: "fst (getAIResponse apiKey gw question) = Inr v"
      using getAIResponse_settles by blast
    have "ids_below (now + 1) (step apiKey e c)"
      using sp(1)
      by (intro ids_below_snoc[OF assms(1), of _ _
            "\<lparr> id' = toString (now + 1), role = Assistant, content = v, timestamp = date \<rparr>"])
         (simp_all add: Settle Some v handleSend_resume_def)
    with sp(2) show ?thesis by blast
  qed
qed

lemma ids_below_run:
  assumes "ids_below hi c" and "spaced hi evs"
  shows "distinct (map id' (messages (ui (run apiKey evs c))))"
  using assms
proof (induction evs arbitrary: hi c)
  case Nil
  then show ?case by (simp add: ids_below_def)
next
  case (Cons e evs)
  then obtain hi' where "ids_below hi' (step apiKey e c)" "spaced hi' evs"
    using ids_below_step by blast
  then show ?case
    using Cons.IH by simp
qed


text \<open>
  C7, amended. The ids of the conversation, the greeting's included, are pairwise distinct
  after every sequence of events whose clock readings are spaced: every submission reads a
  clock value above 1 and above every number already used for an id (an earlier
  submission's reading, an earlier completion's reading plus one), and every completion
  reads a value that is not below any of them.
\<close>

theorem ids_distinct_when_spaced:
  assumes "spaced 1 evs"
  shows "distinct (map id' (messages (ui (run apiKey evs (mount date)))))"
proof -
  have "toString 1 = ascii ''1''"
    by (simp add: toString_def digits_small ascii_def)
  then have "ids_below 1 (mount date)"
    by (auto simp: ids_below_def mount_def ChatBot_def greeting_def)
  then show ?thesis
    using assms by (rule ids_below_run)
qed


theorem ids_distinct_when_spaced_witness:
  "spaced 1 [Change (ascii ''a''), Click 1000 1000, Settle offline 1000 1000,
             Change (ascii ''b''), Click 1002 1002, Settle offline 1005 1005]
   \<and> distinct (map id' (messages (ui (run None
        [Change (ascii ''a''), Click 1000 1000, Settle offline 1000 1000,
         Change (ascii ''b''), Click 1002 1002, Settle offline 1005 1005]
        (mount 0)))))"
proof -
  have sp: "spaced 1 [Change (ascii ''a''), Click 1000 1000, Settle offline 1000 1000,
             Change (ascii ''b''), Click 1002 1002, Settle offline 1005 1005]"
    by simp
  from sp ids_distinct_when_spaced[OF sp, of None 0] show ?thesis
    by blast
qed

end
